theory Spec2Isabelle
  imports Main "HOL-Library.AList" "HOL-Library.Sublist"
begin

section \<open>Data model\<close>

text \<open>
  An activity as the literal \<^verbatim>\<open>initial_activities\<close> of \<^verbatim>\<open>src/app.py\<close> writes it and as
  \<^verbatim>\<open>get_activities\<close> returns it: the five fields of the dictionary. Python's integers are
  unbounded, so \<^verbatim>\<open>max_participants\<close> is an \<open>int\<close>; the participants are a list, in order.
\<close>

record activity =
  name :: string
  description :: string
  schedule :: string
  max_participants :: int
  participants :: "string list"

text \<open>
  A stored document is an activity with the identifier the store adds on insertion (the
  field \<^verbatim>\<open>_id\<close>; an Isabelle name cannot start with an underscore, so it is \<open>oid\<close>).
  The collection is the list of its documents in natural (insertion) order.
\<close>

record document = activity +
  oid :: nat

type_synonym store = "document list"

definition pop_oid :: "document \<Rightarrow> activity" where
  "pop_oid d =
     \<lparr>name = name d, description = description d, schedule = schedule d,
      max_participants = max_participants d, participants = participants d\<rparr>"

definition with_oid :: "nat \<Rightarrow> activity \<Rightarrow> document" where
  "with_oid k a =
     \<lparr>name = name a, description = description a, schedule = schedule a,
      max_participants = max_participants a, participants = participants a, oid = k\<rparr>"

text \<open>
  \<^verbatim>\<open>raise HTTPException(status_code=..., detail=...)\<close> is the left summand of a handler's
  result; the returned dictionary \<^verbatim>\<open>{"message": ...}\<close> is the right one, answered with
  status 200.
\<close>

datatype http_exception = HTTPException (status_code: nat) (detail: string)

datatype reply = Message (message: string)

type_synonym response = "http_exception + reply"

definition status :: "response \<Rightarrow> nat" where
  "status r = (case r of Inl e \<Rightarrow> status_code e | Inr _ \<Rightarrow> 200)"

section \<open>The operations of the collection\<close>

text \<open>
  The calls the handlers make on \<^verbatim>\<open>activities_collection\<close>, each one atomic on the
  collection as it is when the call runs.

  \<^item> \<^verbatim>\<open>count_documents({})\<close>: the number of documents.
  \<^item> \<^verbatim>\<open>insert_one(activity)\<close>: appends the document under an identifier no stored document has.
  \<^item> \<^verbatim>\<open>find_one({"name": n})\<close>: the first document whose name is \<open>n\<close>, or \<open>None\<close>.
  \<^item> \<^verbatim>\<open>update_one({"name": n}, u)\<close>: applies the update \<open>u\<close> to the first document whose
    name is \<open>n\<close>; \<^verbatim>\<open>modified_count\<close> is 1 when that document changed and 0 when no document
    matched or the update left it as it was.
  \<^item> \<^verbatim>\<open>{"$push": {"participants": e}}\<close> appends \<open>e\<close>;
    \<^verbatim>\<open>{"$pull": {"participants": e}}\<close> removes every element equal to \<open>e\<close>.
\<close>

definition count_documents :: "store \<Rightarrow> nat" where
  "count_documents s = length s"

definition fresh_oid :: "store \<Rightarrow> nat" where
  "fresh_oid s = Suc (fold max (map oid s) 0)"

definition insert_one :: "store \<Rightarrow> activity \<Rightarrow> store" where
  "insert_one s a = s @ [with_oid (fresh_oid s) a]"

fun find_one :: "store \<Rightarrow> string \<Rightarrow> document option" where
  "find_one [] n = None"
| "find_one (d # ds) n = (if name d = n then Some d else find_one ds n)"

fun update_one :: "(document \<Rightarrow> document) \<Rightarrow> store \<Rightarrow> string \<Rightarrow> store \<times> nat" where
  "update_one u [] n = ([], 0)"
| "update_one u (d # ds) n =
     (if name d = n then (u d # ds, if u d = d then 0 else 1)
      else (case update_one u ds n of (ds', modified_count) \<Rightarrow> (d # ds', modified_count)))"

definition push :: "string \<Rightarrow> document \<Rightarrow> document" where
  "push e d = d\<lparr>participants := participants d @ [e]\<rparr>"

definition pull :: "string \<Rightarrow> document \<Rightarrow> document" where
  "pull e d = d\<lparr>participants := removeAll e (participants d)\<rparr>"

section \<open>The handlers\<close>

text \<open>The literal \<^verbatim>\<open>initial_activities\<close>, a dictionary, as the list of its items in order.\<close>

definition initial_activities :: "(string \<times> activity) list" where
  "initial_activities =
    [(''Chess Club'',
      \<lparr>name = ''Chess Club'',
       description = ''Learn strategies and compete in chess tournaments'',
       schedule = ''Fridays, 3:30 PM - 5:00 PM'',
       max_participants = 12,
       participants = [''michael@mergington.edu'', ''daniel@mergington.edu'']\<rparr>),
     (''Programming Class'',
      \<lparr>name = ''Programming Class'',
       description = ''Learn programming fundamentals and build software projects'',
       schedule = ''Tuesdays and Thursdays, 3:30 PM - 4:30 PM'',
       max_participants = 20,
       participants = [''emma@mergington.edu'', ''sophia@mergington.edu'']\<rparr>),
     (''Gym Class'',
      \<lparr>name = ''Gym Class'',
       description = ''Physical education and sports activities'',
       schedule = ''Mondays, Wednesdays, Fridays, 2:00 PM - 3:00 PM'',
       max_participants = 30,
       participants = [''john@mergington.edu'', ''olivia@mergington.edu'']\<rparr>),
     (''Soccer Team'',
      \<lparr>name = ''Soccer Team'',
       description = ''Join the school soccer team and compete in local leagues'',
       schedule = ''Wednesdays and Fridays, 4:00 PM - 5:30 PM'',
       max_participants = 18,
       participants = [''lucas@mergington.edu'', ''mia@mergington.edu'']\<rparr>),
     (''Basketball Club'',
      \<lparr>name = ''Basketball Club'',
       description = ''Practice basketball skills and play friendly matches'',
       schedule = ''Tuesdays, 5:00 PM - 6:30 PM'',
       max_participants = 15,
       participants = [''liam@mergington.edu'', ''ava@mergington.edu'']\<rparr>),
     (''Art Club'',
      \<lparr>name = ''Art Club'',
       description = ''Explore painting, drawing, and other visual arts'',
       schedule = ''Thursdays, 3:30 PM - 5:00 PM'',
       max_participants = 16,
       participants = [''noah@mergington.edu'', ''isabella@mergington.edu'']\<rparr>),
     (''Drama Society'',
      \<lparr>name = ''Drama Society'',
       description = ''Participate in school plays and drama workshops'',
       schedule = ''Mondays, 4:00 PM - 5:30 PM'',
       max_participants = 20,
       participants = [''amelia@mergington.edu'', ''benjamin@mergington.edu'']\<rparr>),
     (''Math Olympiad'',
      \<lparr>name = ''Math Olympiad'',
       description = ''Prepare for math competitions and solve challenging problems'',
       schedule = ''Wednesdays, 3:30 PM - 5:00 PM'',
       max_participants = 10,
       participants = [''charlotte@mergington.edu'', ''elijah@mergington.edu'']\<rparr>),
     (''Debate Club'',
      \<lparr>name = ''Debate Club'',
       description = ''Develop public speaking and argumentation skills'',
       schedule = ''Fridays, 4:00 PM - 5:30 PM'',
       max_participants = 14,
       participants = [''jack@mergington.edu'', ''harper@mergington.edu'']\<rparr>)]"

text \<open>
  \<^verbatim>\<open>seed_data\<close>: when the collection counts no document, inserts the values of
  \<^verbatim>\<open>initial_activities\<close> one after the other.
\<close>

definition seed_data :: "store \<Rightarrow> store" where
  "seed_data s =
     (if count_documents s = 0 then foldl insert_one s (map snd initial_activities) else s)"

text \<open>
  \<^verbatim>\<open>get_activities\<close>: reads every document, drops its \<^verbatim>\<open>_id\<close> and stores it in a
  dictionary under its name. Assigning to a key that the dictionary already has replaces
  the value where it stands, which is \<open>AList.update\<close>. The handler only reads the
  collection and has no \<^verbatim>\<open>raise\<close>.
\<close>

definition get_activities :: "store \<Rightarrow> (string \<times> activity) list" where
  "get_activities s =
     foldl (\<lambda>activities d. AList.update (name d) (pop_oid d) activities) [] s"

text \<open>
  \<^verbatim>\<open>signup_for_activity\<close> and \<^verbatim>\<open>unregister_from_activity\<close> read the collection
  (\<^verbatim>\<open>find_one\<close>), validate what they read, and then write (\<^verbatim>\<open>update_one\<close>). Both calls
  are awaited, so other requests may run between the read and the write: \<open>env\<close> is what
  they do to the collection in the meantime, and \<open>id\<close> when the request runs alone. A
  handler returns its response and the collection as its last call left it.
\<close>

definition signup_for_activity ::
  "(store \<Rightarrow> store) \<Rightarrow> store \<Rightarrow> string \<Rightarrow> string \<Rightarrow> response \<times> store" where
  "signup_for_activity env s activity_name email =
     (case find_one s activity_name of
        None \<Rightarrow> (Inl (HTTPException 404 ''Activity not found''), s)
      | Some activity \<Rightarrow>
          if email \<in> set (participants activity)
          then (Inl (HTTPException 400 ''Student already signed up''), s)
          else if int (length (participants activity)) \<ge> max_participants activity
          then (Inl (HTTPException 400 ''Max participants reached''), s)
          else (case update_one (push email) (env s) activity_name of
                  (s', modified_count) \<Rightarrow>
                    if modified_count = 0
                    then (Inl (HTTPException 500 ''Failed to update activity''), s')
                    else (Inr (Message (''Signed up '' @ email @ '' for '' @ activity_name)),
                          s')))"

definition unregister_from_activity ::
  "(store \<Rightarrow> store) \<Rightarrow> store \<Rightarrow> string \<Rightarrow> string \<Rightarrow> response \<times> store" where
  "unregister_from_activity env s activity_name email =
     (case find_one s activity_name of
        None \<Rightarrow> (Inl (HTTPException 404 ''Activity not found''), s)
      | Some activity \<Rightarrow>
          if email \<notin> set (participants activity)
          then (Inl (HTTPException 400 ''Student not registered''), s)
          else (case update_one (pull email) (env s) activity_name of
                  (s', modified_count) \<Rightarrow>
                    if modified_count = 0
                    then (Inl (HTTPException 500 ''Failed to update activity''), s')
                    else (Inr (Message (''Unregistered '' @ email @ '' from '' @ activity_name)),
                          s')))"

text \<open>One request executed alone, and the collection it leaves.\<close>

datatype request =
    Signup string string
  | Unregister string string
  | GetActivities
  | SeedData

fun execute :: "store \<Rightarrow> request \<Rightarrow> store" where
  "execute s (Signup activity_name email) = snd (signup_for_activity id s activity_name email)"
| "execute s (Unregister activity_name email) =
     snd (unregister_from_activity id s activity_name email)"
| "execute s GetActivities = s"
| "execute s SeedData = seed_data s"

text \<open>The two invariants of an activity record.\<close>

definition activity_inv :: "document \<Rightarrow> bool" where
  "activity_inv d =
     (int (length (participants d)) \<le> max_participants d \<and> distinct (participants d))"

text \<open>The participants of the activity that a request for \<open>n\<close> finds, if there is one.\<close>

definition participants_of :: "store \<Rightarrow> string \<Rightarrow> string list option" where
  "participants_of s n = map_option participants (find_one s n)"

text \<open>A document with given identifier, name, capacity and participants, for examples.\<close>

definition doc :: "nat \<Rightarrow> string \<Rightarrow> int \<Rightarrow> string list \<Rightarrow> document" where
  "doc k n m ps =
     \<lparr>name = n, description = [], schedule = [], max_participants = m, participants = ps,
      oid = k\<rparr>"

section \<open>Facts about the collection's operations\<close>

lemma find_one_None_iff: "find_one s n = None \<longleftrightarrow> n \<notin> name ` set s"
  by (induction s) auto

lemma find_one_Some_name: "find_one s n = Some d \<Longrightarrow> name d = n \<and> d \<in> set s"
  by (induction s) (auto split: if_splits)

lemma push_neq: "push e d \<noteq> d"
  by (cases d) (simp add: push_def)

lemma name_push: "name (push e d) = name d"
  by (simp add: push_def)

lemma name_pull: "name (pull e d) = name d"
  by (simp add: pull_def)

lemma pull_eq_iff: "pull e d = d \<longleftrightarrow> e \<notin> set (participants d)"
proof
  assume "pull e d = d"
  then have "participants (pull e d) = participants d" by simp
  then have "removeAll e (participants d) = participants d" by (simp add: pull_def)
  then have "set (participants d) = set (participants d) - {e}" by (metis set_removeAll)
  then show "e \<notin> set (participants d)" by blast
next
  assume "e \<notin> set (participants d)"
  then show "pull e d = d" by (simp add: pull_def)
qed

lemma update_one_length: "length (fst (update_one u s n)) = length s"
  by (induction s) (auto split: prod.splits)

lemma update_one_unmatched: "find_one s n = None \<Longrightarrow> update_one u s n = (s, 0)"
  by (induction s) (auto split: if_splits)

lemma update_one_matched:
  "find_one s n = Some d \<Longrightarrow>
     \<exists>pre post. s = pre @ d # post \<and> n \<notin> name ` set pre \<and>
       update_one u s n = (pre @ u d # post, if u d = d then 0 else 1)"
proof (induction s)
  case Nil
  then show ?case by simp
next
  case (Cons x xs)
  show ?case
  proof (cases "name x = n")
    case True
    with Cons.prems have "x = d" by simp
    with True show ?thesis by (intro exI [of _ "[]"] exI [of _ xs]) auto
  next
    case False
    with Cons.prems have "find_one xs n = Some d" by simp
    from Cons.IH [OF this] obtain pre post where
      "xs = pre @ d # post" "n \<notin> name ` set pre"
      "update_one u xs n = (pre @ u d # post, if u d = d then 0 else 1)" by blast
    with False show ?thesis by (intro exI [of _ "x # pre"] exI [of _ post]) auto
  qed
qed

lemma update_one_zero: "snd (update_one u s n) = 0 \<Longrightarrow> fst (update_one u s n) = s"
  by (induction s) (auto split: prod.splits if_splits)

lemma find_one_update_one:
  "(\<And>d. name (u d) = name d) \<Longrightarrow>
     find_one (fst (update_one u s n)) m =
       (if m = n then map_option u (find_one s n) else find_one s m)"
  by (induction s) (auto split: prod.splits)

lemma modified_count_push:
  "snd (update_one (push e) s n) = (if find_one s n = None then 0 else 1)"
  by (induction s) (auto split: prod.splits simp: push_neq)

lemma modified_count_pull:
  "snd (update_one (pull e) s n) =
     (case find_one s n of None \<Rightarrow> 0 | Some d \<Rightarrow> if e \<in> set (participants d) then 1 else 0)"
  by (induction s) (auto split: prod.splits simp: pull_eq_iff)

lemma update_one_nth:
  "i < length s \<Longrightarrow>
     fst (update_one u s n) ! i = s ! i \<or>
     (find_one s n = Some (s ! i) \<and> fst (update_one u s n) ! i = u (s ! i))"
proof (induction s arbitrary: i)
  case Nil
  then show ?case by simp
next
  case (Cons x xs)
  show ?case
  proof (cases i)
    case 0
    then show ?thesis by (auto split: prod.splits)
  next
    case (Suc j)
    with Cons.prems have "j < length xs" by simp
    from Cons.IH [OF this] Suc show ?thesis by (auto split: prod.splits)
  qed
qed


lemma update_one_zero_eq: "update_one u s n = (s', 0) \<Longrightarrow> s' = s"
  using update_one_zero [of u s n] by simp

section \<open>The handlers, case by case\<close>

lemma signup_cases:
  "signup_for_activity env s n e =
     (case find_one s n of
        None \<Rightarrow> (Inl (HTTPException 404 ''Activity not found''), s)
      | Some a \<Rightarrow>
          if e \<in> set (participants a)
          then (Inl (HTTPException 400 ''Student already signed up''), s)
          else if int (length (participants a)) \<ge> max_participants a
          then (Inl (HTTPException 400 ''Max participants reached''), s)
          else if snd (update_one (push e) (env s) n) = 0
          then (Inl (HTTPException 500 ''Failed to update activity''), env s)
          else (Inr (Message (''Signed up '' @ e @ '' for '' @ n)),
                fst (update_one (push e) (env s) n)))"
  by (auto simp: signup_for_activity_def split: option.splits prod.splits
        dest: update_one_zero_eq)

lemma unregister_cases:
  "unregister_from_activity env s n e =
     (case find_one s n of
        None \<Rightarrow> (Inl (HTTPException 404 ''Activity not found''), s)
      | Some a \<Rightarrow>
          if e \<notin> set (participants a)
          then (Inl (HTTPException 400 ''Student not registered''), s)
          else if snd (update_one (pull e) (env s) n) = 0
          then (Inl (HTTPException 500 ''Failed to update activity''), env s)
          else (Inr (Message (''Unregistered '' @ e @ '' from '' @ n)),
                fst (update_one (pull e) (env s) n)))"
  by (auto simp: unregister_from_activity_def split: option.splits prod.splits
        dest: update_one_zero_eq)

section \<open>Order of the validation checks\<close>

text \<open>
  C9. \<^verbatim>\<open>signup_for_activity\<close> checks that the activity exists, then that the email is not
  yet a participant, then the capacity: for an activity that is at or over capacity and
  already lists the email, the request fails with 400 "Student already signed up" and not
  with the capacity error, whatever other requests do in the meantime.
\<close>

theorem signup_validation_order:
  assumes "find_one s activity_name = Some a"
    and "email \<in> set (participants a)"
    and "int (length (participants a)) \<ge> max_participants a"
  shows "fst (signup_for_activity env s activity_name email) =
           Inl (HTTPException 400 ''Student already signed up'') \<and>
         fst (signup_for_activity env s activity_name email) \<noteq>
           Inl (HTTPException 400 ''Max participants reached'')"
  using assms by (simp add: signup_cases)

theorem signup_validation_order_witness:
  "find_one [doc 1 ''Chess Club'' 1 [''a@m.edu'', ''b@m.edu'']] ''Chess Club'' =
     Some (doc 1 ''Chess Club'' 1 [''a@m.edu'', ''b@m.edu'']) \<and>
   ''b@m.edu'' \<in> set (participants (doc 1 ''Chess Club'' 1 [''a@m.edu'', ''b@m.edu''])) \<and>
   int (length (participants (doc 1 ''Chess Club'' 1 [''a@m.edu'', ''b@m.edu''])))
     \<ge> max_participants (doc 1 ''Chess Club'' 1 [''a@m.edu'', ''b@m.edu'']) \<and>
   fst (signup_for_activity id [doc 1 ''Chess Club'' 1 [''a@m.edu'', ''b@m.edu'']]
          ''Chess Club'' ''b@m.edu'') =
     Inl (HTTPException 400 ''Student already signed up'')"
proof -
  let ?d = "doc 1 ''Chess Club'' 1 [''a@m.edu'', ''b@m.edu'']"
  have 1: "find_one [?d] ''Chess Club'' = Some ?d" by (simp add: doc_def)
  have 2: "''b@m.edu'' \<in> set (participants ?d)" by (simp add: doc_def)
  have 3: "int (length (participants ?d)) \<ge> max_participants ?d" by (simp add: doc_def)
  from signup_validation_order [OF 1 2 3, of id] 1 2 3 show ?thesis by simp
qed

section \<open>Responses of \<^verbatim>\<open>signup_for_activity\<close>\<close>

text \<open>
  C2. \<^verbatim>\<open>signup_for_activity(activity_name, email)\<close> fails with 404 when no document has the
  name, with 400 when the email is already a participant of the activity, with 400 when
  the activity has at least \<^verbatim>\<open>max_participants\<close> participants, and with 500 when the
  update reports \<^verbatim>\<open>modified_count == 0\<close>; in every other case it returns the confirmation
  with status 200.
\<close>

theorem signup_responses:
  "(activity_name \<notin> name ` set s \<longrightarrow>
      fst (signup_for_activity env s activity_name email) =
        Inl (HTTPException 404 ''Activity not found'')) \<and>
   (\<forall>a. find_one s activity_name = Some a \<longrightarrow> email \<in> set (participants a) \<longrightarrow>
      fst (signup_for_activity env s activity_name email) =
        Inl (HTTPException 400 ''Student already signed up'')) \<and>
   (\<forall>a. find_one s activity_name = Some a \<longrightarrow>
      int (length (participants a)) \<ge> max_participants a \<longrightarrow>
      isl (fst (signup_for_activity env s activity_name email)) \<and>
      status (fst (signup_for_activity env s activity_name email)) = 400) \<and>
   (\<forall>a. find_one s activity_name = Some a \<longrightarrow> email \<notin> set (participants a) \<longrightarrow>
      int (length (participants a)) \<ge> max_participants a \<longrightarrow>
      fst (signup_for_activity env s activity_name email) =
        Inl (HTTPException 400 ''Max participants reached'')) \<and>
   (\<forall>a. find_one s activity_name = Some a \<longrightarrow> email \<notin> set (participants a) \<longrightarrow>
      int (length (participants a)) < max_participants a \<longrightarrow>
      snd (update_one (push email) (env s) activity_name) = 0 \<longrightarrow>
      fst (signup_for_activity env s activity_name email) =
        Inl (HTTPException 500 ''Failed to update activity'')) \<and>
   (\<forall>a. find_one s activity_name = Some a \<longrightarrow> email \<notin> set (participants a) \<longrightarrow>
      int (length (participants a)) < max_participants a \<longrightarrow>
      snd (update_one (push email) (env s) activity_name) \<noteq> 0 \<longrightarrow>
      fst (signup_for_activity env s activity_name email) =
        Inr (Message (''Signed up '' @ email @ '' for '' @ activity_name)) \<and>
      status (fst (signup_for_activity env s activity_name email)) = 200)"
  by (simp add: signup_cases status_def find_one_None_iff [symmetric])

theorem signup_responses_witness:
  "status (fst (signup_for_activity id [doc 1 ''Chess Club'' 2 [''a@m.edu'']]
             ''Art Club'' ''b@m.edu'')) = 404 \<and>
   status (fst (signup_for_activity id [doc 1 ''Chess Club'' 2 [''a@m.edu'']]
             ''Chess Club'' ''a@m.edu'')) = 400 \<and>
   status (fst (signup_for_activity id [doc 1 ''Chess Club'' 1 [''a@m.edu'']]
             ''Chess Club'' ''b@m.edu'')) = 400 \<and>
   fst (signup_for_activity id [doc 1 ''Chess Club'' 1 [''a@m.edu'']]
          ''Chess Club'' ''b@m.edu'') = Inl (HTTPException 400 ''Max participants reached'') \<and>
   status (fst (signup_for_activity (\<lambda>_. []) [doc 1 ''Chess Club'' 2 [''a@m.edu'']]
             ''Chess Club'' ''b@m.edu'')) = 500 \<and>
   status (fst (signup_for_activity id [doc 1 ''Chess Club'' 2 [''a@m.edu'']]
             ''Chess Club'' ''b@m.edu'')) = 200"
proof -
  let ?free = "doc 1 ''Chess Club'' 2 [''a@m.edu'']"
  let ?full = "doc 1 ''Chess Club'' 1 [''a@m.edu'']"
  have free: "find_one [?free] ''Chess Club'' = Some ?free"
    and full: "find_one [?full] ''Chess Club'' = Some ?full"
    by (simp_all add: doc_def)
  have "''Art Club'' \<notin> name ` set [?free]" by (simp add: doc_def)
  with signup_responses [of "''Art Club''" "[?free]" id "''b@m.edu''"]
  have 1: "status (fst (signup_for_activity id [?free] ''Art Club'' ''b@m.edu'')) = 404"
    by (simp add: status_def)
  have "''a@m.edu'' \<in> set (participants ?free)" by (simp add: doc_def)
  with free signup_responses [of "''Chess Club''" "[?free]" id "''a@m.edu''"]
  have 2: "status (fst (signup_for_activity id [?free] ''Chess Club'' ''a@m.edu'')) = 400"
    by (simp add: status_def)
  have cap: "int (length (participants ?full)) \<ge> max_participants ?full"
    and new: "''b@m.edu'' \<notin> set (participants ?full)"
    by (simp_all add: doc_def)
  from full cap signup_responses [of "''Chess Club''" "[?full]" id "''b@m.edu''"]
  have 3: "status (fst (signup_for_activity id [?full] ''Chess Club'' ''b@m.edu'')) = 400"
    by blast
  from full cap new signup_responses [of "''Chess Club''" "[?full]" id "''b@m.edu''"]
  have 4: "fst (signup_for_activity id [?full] ''Chess Club'' ''b@m.edu'') =
             Inl (HTTPException 400 ''Max participants reached'')"
    by blast
  have room: "int (length (participants ?free)) < max_participants ?free"
    and new': "''b@m.edu'' \<notin> set (participants ?free)"
    by (simp_all add: doc_def)
  have "snd (update_one (push ''b@m.edu'') ((\<lambda>_. []) [?free]) ''Chess Club'') = 0"
    by simp
  with free room new'
    signup_responses [of "''Chess Club''" "[?free]" "\<lambda>_. []" "''b@m.edu''"]
  have 5: "status (fst (signup_for_activity (\<lambda>_. []) [?free] ''Chess Club'' ''b@m.edu'')) = 500"
    by (simp add: status_def)
  have "snd (update_one (push ''b@m.edu'') (id [?free]) ''Chess Club'') \<noteq> 0"
    by (simp add: doc_def push_def)
  with free room new' signup_responses [of "''Chess Club''" "[?free]" id "''b@m.edu''"]
  have 6: "status (fst (signup_for_activity id [?free] ''Chess Club'' ''b@m.edu'')) = 200"
    by blast
  from 1 2 3 4 5 6 show ?thesis by blast
qed

text \<open>A signup that runs alone never answers 500: its write finds the document it read.\<close>

lemma signup_alone_never_500:
  "status (fst (signup_for_activity id s activity_name email)) \<noteq> 500"
  by (simp add: signup_cases status_def modified_count_push split: option.splits)

section \<open>Responses of \<^verbatim>\<open>unregister_from_activity\<close>\<close>

lemma participants_of_pull:
  "participants_of (fst (update_one (pull e) s n)) n =
     map_option (removeAll e) (participants_of s n)"
  by (simp add: participants_of_def find_one_update_one name_pull option.map_comp comp_def
        pull_def)

lemma participants_of_push:
  "participants_of (fst (update_one (push e) s n)) n =
     map_option (\<lambda>ps. ps @ [e]) (participants_of s n)"
  by (simp add: participants_of_def find_one_update_one name_push option.map_comp comp_def
        push_def)

lemma modified_found: "snd (update_one u s n) \<noteq> 0 \<Longrightarrow> participants_of s n \<noteq> None"
  by (cases "find_one s n") (simp_all add: participants_of_def update_one_unmatched)

text \<open>
  C3. \<^verbatim>\<open>unregister_from_activity(activity_name, email)\<close> fails with 404 when no document
  has the name, with 400 when the email is not a participant of the activity, and with 500
  when the update reports \<^verbatim>\<open>modified_count == 0\<close>; otherwise it returns the confirmation
  message with status 200, and the activity persisted under that name has the participants
  the write found, without the email.
\<close>

theorem unregister_responses:
  "(activity_name \<notin> name ` set s \<longrightarrow>
      fst (unregister_from_activity env s activity_name email) =
        Inl (HTTPException 404 ''Activity not found'')) \<and>
   (\<forall>a. find_one s activity_name = Some a \<longrightarrow> email \<notin> set (participants a) \<longrightarrow>
      fst (unregister_from_activity env s activity_name email) =
        Inl (HTTPException 400 ''Student not registered'')) \<and>
   (\<forall>a. find_one s activity_name = Some a \<longrightarrow> email \<in> set (participants a) \<longrightarrow>
      snd (update_one (pull email) (env s) activity_name) = 0 \<longrightarrow>
      fst (unregister_from_activity env s activity_name email) =
        Inl (HTTPException 500 ''Failed to update activity'')) \<and>
   (\<forall>a. find_one s activity_name = Some a \<longrightarrow> email \<in> set (participants a) \<longrightarrow>
      snd (update_one (pull email) (env s) activity_name) \<noteq> 0 \<longrightarrow>
      fst (unregister_from_activity env s activity_name email) =
        Inr (Message (''Unregistered '' @ email @ '' from '' @ activity_name)) \<and>
      status (fst (unregister_from_activity env s activity_name email)) = 200 \<and>
      participants_of (snd (unregister_from_activity env s activity_name email)) activity_name =
        map_option (removeAll email) (participants_of (env s) activity_name) \<and>
      participants_of (env s) activity_name \<noteq> None)"
  by (simp add: unregister_cases status_def find_one_None_iff [symmetric]
        participants_of_pull modified_found)

theorem unregister_responses_witness:
  "status (fst (unregister_from_activity id [doc 1 ''Chess Club'' 2 [''a@m.edu'']]
             ''Art Club'' ''a@m.edu'')) = 404 \<and>
   status (fst (unregister_from_activity id [doc 1 ''Chess Club'' 2 [''a@m.edu'']]
             ''Chess Club'' ''b@m.edu'')) = 400 \<and>
   status (fst (unregister_from_activity (\<lambda>_. [doc 1 ''Chess Club'' 2 []])
             [doc 1 ''Chess Club'' 2 [''a@m.edu'']] ''Chess Club'' ''a@m.edu'')) = 500 \<and>
   status (fst (unregister_from_activity id [doc 1 ''Chess Club'' 2 [''a@m.edu'']]
             ''Chess Club'' ''a@m.edu'')) = 200 \<and>
   participants_of (snd (unregister_from_activity id [doc 1 ''Chess Club'' 2 [''a@m.edu'']]
             ''Chess Club'' ''a@m.edu'')) ''Chess Club'' = Some []"
proof -
  let ?d = "doc 1 ''Chess Club'' 2 [''a@m.edu'']"
  let ?gone = "\<lambda>_ :: store. [doc 1 ''Chess Club'' 2 []]"
  have found: "find_one [?d] ''Chess Club'' = Some ?d" by (simp add: doc_def)
  have "''Art Club'' \<notin> name ` set [?d]" by (simp add: doc_def)
  with unregister_responses [of "''Art Club''" "[?d]" id "''a@m.edu''"]
  have 1: "status (fst (unregister_from_activity id [?d] ''Art Club'' ''a@m.edu'')) = 404"
    by (simp add: status_def)
  have "''b@m.edu'' \<notin> set (participants ?d)" by (simp add: doc_def)
  with found unregister_responses [of "''Chess Club''" "[?d]" id "''b@m.edu''"]
  have 2: "status (fst (unregister_from_activity id [?d] ''Chess Club'' ''b@m.edu'')) = 400"
    by (simp add: status_def)
  have there: "''a@m.edu'' \<in> set (participants ?d)" by (simp add: doc_def)
  have "snd (update_one (pull ''a@m.edu'') (?gone [?d]) ''Chess Club'') = 0"
    by (simp add: doc_def pull_def)
  with found there unregister_responses [of "''Chess Club''" "[?d]" ?gone "''a@m.edu''"]
  have 3: "status (fst (unregister_from_activity ?gone [?d] ''Chess Club'' ''a@m.edu'')) = 500"
    by (simp add: status_def)
  have "snd (update_one (pull ''a@m.edu'') (id [?d]) ''Chess Club'') \<noteq> 0"
    by (simp add: doc_def pull_def)
  with found there unregister_responses [of "''Chess Club''" "[?d]" id "''a@m.edu''"]
  have 4: "status (fst (unregister_from_activity id [?d] ''Chess Club'' ''a@m.edu'')) = 200"
    and "participants_of (snd (unregister_from_activity id [?d] ''Chess Club'' ''a@m.edu''))
           ''Chess Club'' =
         map_option (removeAll ''a@m.edu'') (participants_of (id [?d]) ''Chess Club'')"
    by blast+
  moreover have "participants_of (id [?d]) ''Chess Club'' = Some [''a@m.edu'']"
    by (simp add: participants_of_def doc_def)
  ultimately
  have 5: "participants_of (snd (unregister_from_activity id [?d] ''Chess Club'' ''a@m.edu''))
             ''Chess Club'' = Some []"
    by simp
  from 1 2 3 4 5 show ?thesis by blast
qed

text \<open>An unregistration that runs alone never answers 500.\<close>

lemma unregister_alone_never_500:
  "status (fst (unregister_from_activity id s activity_name email)) \<noteq> 500"
  by (simp add: unregister_cases status_def modified_count_pull split: option.splits)

text \<open>
  C10. A successful \<^verbatim>\<open>unregister_from_activity(activity_name, email)\<close> removes every
  occurrence of the email from the activity's participants (\<^verbatim>\<open>$pull\<close> removes all matching
  elements): the email is absent from the persisted list afterwards, also when the stored
  list held it more than once.
\<close>

theorem unregister_removes_every_occurrence:
  assumes "fst (unregister_from_activity env s activity_name email) = Inr m"
  shows "participants_of (snd (unregister_from_activity env s activity_name email))
           activity_name =
         map_option (removeAll email) (participants_of (env s) activity_name) \<and>
         participants_of (snd (unregister_from_activity env s activity_name email))
           activity_name \<noteq> None \<and>
         (\<forall>ps. participants_of (snd (unregister_from_activity env s activity_name email))
                 activity_name = Some ps \<longrightarrow> email \<notin> set ps)"
proof -
  from assms have "snd (update_one (pull email) (env s) activity_name) \<noteq> 0"
    and "snd (unregister_from_activity env s activity_name email) =
           fst (update_one (pull email) (env s) activity_name)"
    by (auto simp: unregister_cases split: option.splits if_splits)
  then show ?thesis
    using modified_found [of "pull email" "env s" activity_name]
    by (auto simp: participants_of_pull)
qed

theorem unregister_removes_every_occurrence_witness:
  "fst (unregister_from_activity id
          [doc 1 ''Chess Club'' 3 [''a@m.edu'', ''b@m.edu'', ''a@m.edu'']]
          ''Chess Club'' ''a@m.edu'') =
     Inr (Message ''Unregistered a@m.edu from Chess Club'') \<and>
   participants_of
     (snd (unregister_from_activity id
             [doc 1 ''Chess Club'' 3 [''a@m.edu'', ''b@m.edu'', ''a@m.edu'']]
             ''Chess Club'' ''a@m.edu'')) ''Chess Club'' = Some [''b@m.edu'']"
proof -
  let ?s = "[doc 1 ''Chess Club'' 3 [''a@m.edu'', ''b@m.edu'', ''a@m.edu'']]"
  have ok: "fst (unregister_from_activity id ?s ''Chess Club'' ''a@m.edu'') =
              Inr (Message ''Unregistered a@m.edu from Chess Club'')"
    by (simp add: unregister_from_activity_def doc_def pull_def)
  have "participants_of (id ?s) ''Chess Club'' = Some [''a@m.edu'', ''b@m.edu'', ''a@m.edu'']"
    by (simp add: participants_of_def doc_def)
  with unregister_removes_every_occurrence [OF ok] ok show ?thesis by simp
qed

section \<open>A failed request writes nothing\<close>

text \<open>
  C4. Whenever \<^verbatim>\<open>signup_for_activity\<close> or \<^verbatim>\<open>unregister_from_activity\<close> fails (404, 400 or
  500), every document of the collection is as it was before the request. A request that
  runs alone leaves the collection it started from; one that fails with 500 after other
  requests ran leaves the collection as its write found it. In particular, enrolling an
  email already present and unregistering an absent email change nothing.
\<close>

theorem failure_leaves_store_unchanged:
  "(isl (fst (signup_for_activity id s activity_name email)) \<longrightarrow>
      snd (signup_for_activity id s activity_name email) = s) \<and>
   (isl (fst (unregister_from_activity id s activity_name email)) \<longrightarrow>
      snd (unregister_from_activity id s activity_name email) = s) \<and>
   (isl (fst (signup_for_activity env s activity_name email)) \<longrightarrow>
      snd (signup_for_activity env s activity_name email) =
        (if status (fst (signup_for_activity env s activity_name email)) = 500
         then env s else s)) \<and>
   (isl (fst (unregister_from_activity env s activity_name email)) \<longrightarrow>
      snd (unregister_from_activity env s activity_name email) =
        (if status (fst (unregister_from_activity env s activity_name email)) = 500
         then env s else s)) \<and>
   (\<forall>a. find_one s activity_name = Some a \<longrightarrow> email \<in> set (participants a) \<longrightarrow>
      isl (fst (signup_for_activity env s activity_name email)) \<and>
      snd (signup_for_activity env s activity_name email) = s) \<and>
   (\<forall>a. find_one s activity_name = Some a \<longrightarrow> email \<notin> set (participants a) \<longrightarrow>
      isl (fst (unregister_from_activity env s activity_name email)) \<and>
      snd (unregister_from_activity env s activity_name email) = s)"
  by (simp add: signup_cases unregister_cases status_def split: option.splits)

theorem failure_leaves_store_unchanged_witness:
  "isl (fst (signup_for_activity id [doc 1 ''Chess Club'' 1 [''a@m.edu'']]
          ''Chess Club'' ''a@m.edu'')) \<and>
   snd (signup_for_activity id [doc 1 ''Chess Club'' 1 [''a@m.edu'']]
          ''Chess Club'' ''a@m.edu'') = [doc 1 ''Chess Club'' 1 [''a@m.edu'']] \<and>
   isl (fst (signup_for_activity id [doc 1 ''Chess Club'' 1 [''a@m.edu'']]
          ''Chess Club'' ''b@m.edu'')) \<and>
   snd (signup_for_activity id [doc 1 ''Chess Club'' 1 [''a@m.edu'']]
          ''Chess Club'' ''b@m.edu'') = [doc 1 ''Chess Club'' 1 [''a@m.edu'']] \<and>
   isl (fst (unregister_from_activity id [doc 1 ''Chess Club'' 1 [''a@m.edu'']]
          ''Chess Club'' ''b@m.edu'')) \<and>
   snd (unregister_from_activity id [doc 1 ''Chess Club'' 1 [''a@m.edu'']]
          ''Chess Club'' ''b@m.edu'') = [doc 1 ''Chess Club'' 1 [''a@m.edu'']] \<and>
   isl (fst (unregister_from_activity id [doc 1 ''Chess Club'' 1 [''a@m.edu'']]
          ''Art Club'' ''a@m.edu'')) \<and>
   snd (unregister_from_activity id [doc 1 ''Chess Club'' 1 [''a@m.edu'']]
          ''Art Club'' ''a@m.edu'') = [doc 1 ''Chess Club'' 1 [''a@m.edu'']] \<and>
   isl (fst (unregister_from_activity (\<lambda>_. [doc 1 ''Chess Club'' 1 []])
          [doc 1 ''Chess Club'' 1 [''a@m.edu'']] ''Chess Club'' ''a@m.edu'')) \<and>
   snd (unregister_from_activity (\<lambda>_. [doc 1 ''Chess Club'' 1 []])
          [doc 1 ''Chess Club'' 1 [''a@m.edu'']] ''Chess Club'' ''a@m.edu'') =
     [doc 1 ''Chess Club'' 1 []]"
proof -
  let ?d = "doc 1 ''Chess Club'' 1 [''a@m.edu'']"
  let ?other = "\<lambda>_ :: store. [doc 1 ''Chess Club'' 1 []]"
  have found: "find_one [?d] ''Chess Club'' = Some ?d" by (simp add: doc_def)
  have there: "''a@m.edu'' \<in> set (participants ?d)"
    and absent: "''b@m.edu'' \<notin> set (participants ?d)"
    by (simp_all add: doc_def)
  from found there failure_leaves_store_unchanged [of "[?d]" "''Chess Club''" "''a@m.edu''" id]
  have 1: "isl (fst (signup_for_activity id [?d] ''Chess Club'' ''a@m.edu'')) \<and>
           snd (signup_for_activity id [?d] ''Chess Club'' ''a@m.edu'') = [?d]"
    by blast
  have full: "isl (fst (signup_for_activity id [?d] ''Chess Club'' ''b@m.edu''))"
    by (simp add: signup_for_activity_def doc_def)
  with failure_leaves_store_unchanged [of "[?d]" "''Chess Club''" "''b@m.edu''" id]
  have 2: "snd (signup_for_activity id [?d] ''Chess Club'' ''b@m.edu'') = [?d]"
    by blast
  from found absent
    failure_leaves_store_unchanged [of "[?d]" "''Chess Club''" "''b@m.edu''" id]
  have 3: "isl (fst (unregister_from_activity id [?d] ''Chess Club'' ''b@m.edu'')) \<and>
           snd (unregister_from_activity id [?d] ''Chess Club'' ''b@m.edu'') = [?d]"
    by blast
  have unknown: "isl (fst (unregister_from_activity id [?d] ''Art Club'' ''a@m.edu''))"
    by (simp add: unregister_from_activity_def doc_def)
  with failure_leaves_store_unchanged [of "[?d]" "''Art Club''" "''a@m.edu''" id]
  have 4: "snd (unregister_from_activity id [?d] ''Art Club'' ''a@m.edu'') = [?d]"
    by blast
  have lost: "isl (fst (unregister_from_activity ?other [?d] ''Chess Club'' ''a@m.edu''))"
    and code: "status (fst (unregister_from_activity ?other [?d] ''Chess Club'' ''a@m.edu'')) = 500"
    by (simp_all add: unregister_from_activity_def doc_def pull_def status_def)
  with failure_leaves_store_unchanged [of "[?d]" "''Chess Club''" "''a@m.edu''" ?other]
  have 5: "snd (unregister_from_activity ?other [?d] ''Chess Club'' ''a@m.edu'') =
             [doc 1 ''Chess Club'' 1 []]"
    by simp
  from 1 full 2 3 unknown 4 lost 5 show ?thesis by blast
qed

section \<open>Round trip\<close>

lemma pull_push: "e \<notin> set (participants d) \<Longrightarrow> pull e (push e d) = d"
  by (simp add: pull_def push_def)

lemma find_one_split:
  "n \<notin> name ` set pre \<Longrightarrow> name d = n \<Longrightarrow> find_one (pre @ d # post) n = Some d"
  by (induction pre) auto

lemma update_one_split:
  "n \<notin> name ` set pre \<Longrightarrow> name d = n \<Longrightarrow>
     update_one u (pre @ d # post) n = (pre @ u d # post, if u d = d then 0 else 1)"
  by (induction pre) auto

text \<open>
  C5. When \<^verbatim>\<open>signup_for_activity(A, e)\<close> succeeds and \<^verbatim>\<open>unregister_from_activity(A, e)\<close>
  runs right after it, with no other request in between, the unregistration succeeds and
  the participants of \<open>A\<close> are exactly the list they were before the signup; indeed the
  whole collection is.
\<close>

theorem signup_then_unregister:
  assumes "fst (signup_for_activity id s activity_name email) = Inr m"
  shows "fst (unregister_from_activity id
                (snd (signup_for_activity id s activity_name email)) activity_name email) =
           Inr (Message (''Unregistered '' @ email @ '' from '' @ activity_name)) \<and>
         snd (unregister_from_activity id
                (snd (signup_for_activity id s activity_name email)) activity_name email) = s \<and>
         participants_of
           (snd (unregister_from_activity id
                   (snd (signup_for_activity id s activity_name email)) activity_name email))
           activity_name = participants_of s activity_name"
proof -
  from assms obtain a where a: "find_one s activity_name = Some a"
    and new: "email \<notin> set (participants a)"
    and s1: "snd (signup_for_activity id s activity_name email) =
               fst (update_one (push email) s activity_name)"
    by (auto simp: signup_cases split: option.splits if_splits)
  from update_one_matched [OF a, of "push email"] obtain pre post where
    s: "s = pre @ a # post" and pre: "activity_name \<notin> name ` set pre"
    and "update_one (push email) s activity_name = (pre @ push email a # post, 1)"
    by (auto simp: push_neq)
  with s1 have s1': "snd (signup_for_activity id s activity_name email) =
                       pre @ push email a # post"
    by simp
  from a have name: "name (push email a) = activity_name"
    by (simp add: name_push find_one_Some_name)
  have found: "find_one (pre @ push email a # post) activity_name = Some (push email a)"
    using pre name by (rule find_one_split)
  have "update_one (pull email) (pre @ push email a # post) activity_name =
          (pre @ pull email (push email a) # post,
           if pull email (push email a) = push email a then 0 else 1)"
    using pre name by (rule update_one_split)
  with new have upd: "update_one (pull email) (pre @ push email a # post) activity_name =
                        (s, 1)"
    by (simp add: pull_push s push_neq [symmetric])
  have "email \<in> set (participants (push email a))" by (simp add: push_def)
  with found upd show ?thesis
    by (simp add: s1' unregister_cases)
qed

theorem signup_then_unregister_witness:
  "fst (signup_for_activity id [doc 1 ''Chess Club'' 3 [''a@m.edu'', ''b@m.edu'']]
          ''Chess Club'' ''c@m.edu'') = Inr (Message ''Signed up c@m.edu for Chess Club'') \<and>
   participants_of (snd (signup_for_activity id
       [doc 1 ''Chess Club'' 3 [''a@m.edu'', ''b@m.edu'']] ''Chess Club'' ''c@m.edu''))
     ''Chess Club'' = Some [''a@m.edu'', ''b@m.edu'', ''c@m.edu''] \<and>
   snd (unregister_from_activity id
          (snd (signup_for_activity id [doc 1 ''Chess Club'' 3 [''a@m.edu'', ''b@m.edu'']]
                  ''Chess Club'' ''c@m.edu''))
          ''Chess Club'' ''c@m.edu'') = [doc 1 ''Chess Club'' 3 [''a@m.edu'', ''b@m.edu'']]"
proof -
  let ?s = "[doc 1 ''Chess Club'' 3 [''a@m.edu'', ''b@m.edu'']]"
  have ok: "fst (signup_for_activity id ?s ''Chess Club'' ''c@m.edu'') =
              Inr (Message ''Signed up c@m.edu for Chess Club'')"
    by (simp add: signup_for_activity_def doc_def push_def)
  have mid: "participants_of (snd (signup_for_activity id ?s ''Chess Club'' ''c@m.edu''))
               ''Chess Club'' = Some [''a@m.edu'', ''b@m.edu'', ''c@m.edu'']"
    by (simp add: signup_for_activity_def doc_def push_def participants_of_def)
  from signup_then_unregister [OF ok] ok mid show ?thesis by blast
qed

section \<open>A successful signup\<close>

lemma signup_success:
  assumes "fst (signup_for_activity env s n e) = Inr m"
  shows "m = Message (''Signed up '' @ e @ '' for '' @ n)"
    and "snd (signup_for_activity env s n e) = fst (update_one (push e) (env s) n)"
    and "snd (update_one (push e) (env s) n) \<noteq> 0"
  using assms by (auto simp: signup_cases split: option.splits if_splits)

text \<open>
  C7. When \<^verbatim>\<open>signup_for_activity(activity_name, email)\<close> succeeds, the participants
  persisted for the activity are the participants the write found with the email appended
  at the end (so one more than before), and the confirmation message contains the activity
  name and the email. In particular, signing up \<^verbatim>\<open>new@mergington.edu\<close> for "Chess Club"
  when it has 2 participants, none of them that email, and \<^verbatim>\<open>max_participants\<close> 12
  succeeds and leaves 3 participants.
\<close>

theorem signup_success_appends:
  "(fst (signup_for_activity env s activity_name email) = Inr m \<longrightarrow>
      participants_of (snd (signup_for_activity env s activity_name email)) activity_name =
        map_option (\<lambda>ps. ps @ [email]) (participants_of (env s) activity_name) \<and>
      participants_of (env s) activity_name \<noteq> None \<and>
      map_option length
        (participants_of (snd (signup_for_activity env s activity_name email)) activity_name) =
        map_option (\<lambda>ps. length ps + 1) (participants_of (env s) activity_name) \<and>
      message m = ''Signed up '' @ email @ '' for '' @ activity_name \<and>
      sublist activity_name (message m) \<and> sublist email (message m)) \<and>
   (\<forall>a. find_one s ''Chess Club'' = Some a \<longrightarrow>
      length (participants a) = 2 \<longrightarrow> max_participants a = 12 \<longrightarrow>
      ''new@mergington.edu'' \<notin> set (participants a) \<longrightarrow>
      fst (signup_for_activity id s ''Chess Club'' ''new@mergington.edu'') =
        Inr (Message ''Signed up new@mergington.edu for Chess Club'') \<and>
      participants_of (snd (signup_for_activity id s ''Chess Club'' ''new@mergington.edu''))
        ''Chess Club'' = Some (participants a @ [''new@mergington.edu'']) \<and>
      map_option length
        (participants_of (snd (signup_for_activity id s ''Chess Club'' ''new@mergington.edu''))
           ''Chess Club'') = Some 3)"
proof (intro conjI impI allI)
  assume ok: "fst (signup_for_activity env s activity_name email) = Inr m"
  note facts = signup_success [OF ok]
  show app: "participants_of (snd (signup_for_activity env s activity_name email)) activity_name =
        map_option (\<lambda>ps. ps @ [email]) (participants_of (env s) activity_name)"
    by (simp add: facts(2) participants_of_push)
  show "participants_of (env s) activity_name \<noteq> None"
    using facts(3) by (rule modified_found)
  show "map_option length
        (participants_of (snd (signup_for_activity env s activity_name email)) activity_name) =
        map_option (\<lambda>ps. length ps + 1) (participants_of (env s) activity_name)"
    by (simp add: app option.map_comp comp_def)
  show msg: "message m = ''Signed up '' @ email @ '' for '' @ activity_name"
    by (simp add: facts(1))
  show "sublist activity_name (message m)"
    unfolding msg by (metis append.assoc sublist_append_leftI)
  show "sublist email (message m)"
    unfolding msg by (rule sublist_appendI)
next
  fix a
  assume a: "find_one s ''Chess Club'' = Some a"
    and len: "length (participants a) = 2" and cap: "max_participants a = 12"
    and new: "''new@mergington.edu'' \<notin> set (participants a)"
  have cnt: "snd (update_one (push ''new@mergington.edu'') s ''Chess Club'') \<noteq> 0"
    by (simp add: modified_count_push a)
  from a len cap new cnt
  show ok: "fst (signup_for_activity id s ''Chess Club'' ''new@mergington.edu'') =
          Inr (Message ''Signed up new@mergington.edu for Chess Club'')"
    by (simp add: signup_cases)
  from a len cap new cnt
  show app: "participants_of (snd (signup_for_activity id s ''Chess Club'' ''new@mergington.edu''))
          ''Chess Club'' = Some (participants a @ [''new@mergington.edu''])"
    by (simp add: signup_cases participants_of_push) (simp add: participants_of_def)
  show "map_option length
          (participants_of (snd (signup_for_activity id s ''Chess Club'' ''new@mergington.edu''))
             ''Chess Club'') = Some 3"
    by (simp add: app len)
qed


text \<open>The document that a request for "Chess Club" finds after seeding an empty collection.\<close>

lemma seeded_chess_club:
  "find_one (seed_data []) ''Chess Club'' =
     Some \<lparr>name = ''Chess Club'',
           description = ''Learn strategies and compete in chess tournaments'',
           schedule = ''Fridays, 3:30 PM - 5:00 PM'',
           max_participants = 12,
           participants = [''michael@mergington.edu'', ''daniel@mergington.edu''],
           oid = 1\<rparr>"
  by (simp add: seed_data_def count_documents_def initial_activities_def insert_one_def
        with_oid_def fresh_oid_def)

theorem signup_success_appends_witness:
  "fst (signup_for_activity id (seed_data []) ''Chess Club'' ''new@mergington.edu'') =
     Inr (Message ''Signed up new@mergington.edu for Chess Club'') \<and>
   participants_of (seed_data []) ''Chess Club'' =
     Some [''michael@mergington.edu'', ''daniel@mergington.edu''] \<and>
   participants_of
     (snd (signup_for_activity id (seed_data []) ''Chess Club'' ''new@mergington.edu''))
     ''Chess Club'' =
     Some [''michael@mergington.edu'', ''daniel@mergington.edu'', ''new@mergington.edu''] \<and>
   sublist ''Chess Club'' ''Signed up new@mergington.edu for Chess Club'' \<and>
   sublist ''new@mergington.edu'' ''Signed up new@mergington.edu for Chess Club''"
proof -
  let ?chess = "\<lparr>name = ''Chess Club'',
           description = ''Learn strategies and compete in chess tournaments'',
           schedule = ''Fridays, 3:30 PM - 5:00 PM'',
           max_participants = 12,
           participants = [''michael@mergington.edu'', ''daniel@mergington.edu''],
           oid = 1\<rparr>"
  note inst = signup_success_appends [of id "seed_data []" "''Chess Club''"
      "''new@mergington.edu''" "Message ''Signed up new@mergington.edu for Chess Club''"]
  have "length (participants ?chess) = 2" "max_participants ?chess = 12"
    "''new@mergington.edu'' \<notin> set (participants ?chess)"
    by simp_all
  with seeded_chess_club inst
  have ok: "fst (signup_for_activity id (seed_data []) ''Chess Club'' ''new@mergington.edu'') =
              Inr (Message ''Signed up new@mergington.edu for Chess Club'')"
    and after: "participants_of
       (snd (signup_for_activity id (seed_data []) ''Chess Club'' ''new@mergington.edu''))
       ''Chess Club'' = Some (participants ?chess @ [''new@mergington.edu''])"
    by blast+
  from ok inst
  have "sublist ''Chess Club'' (message (Message ''Signed up new@mergington.edu for Chess Club''))"
    and "sublist ''new@mergington.edu''
           (message (Message ''Signed up new@mergington.edu for Chess Club''))"
    by blast+
  moreover have "participants_of (seed_data []) ''Chess Club'' =
      Some [''michael@mergington.edu'', ''daniel@mergington.edu'']"
    by (simp add: participants_of_def seeded_chess_club)
  ultimately show ?thesis using ok after by simp
qed

section \<open>The invariants of an activity\<close>

lemma activity_inv_push:
  "activity_inv d \<Longrightarrow> e \<notin> set (participants d) \<Longrightarrow>
     int (length (participants d)) < max_participants d \<Longrightarrow> activity_inv (push e d)"
  by (simp add: activity_inv_def push_def)

lemma length_removeAll_le: "length (removeAll e xs) \<le> length xs"
  by (simp add: removeAll_filter_not_eq)

lemma activity_inv_pull: "activity_inv d \<Longrightarrow> activity_inv (pull e d)"
proof -
  assume inv: "activity_inv d"
  have "int (length (removeAll e (participants d))) \<le> int (length (participants d))"
    using length_removeAll_le [of e "participants d"] by simp
  moreover from inv have "int (length (participants d)) \<le> max_participants d"
    and dist: "distinct (participants d)"
    by (simp_all add: activity_inv_def)
  ultimately have "int (length (removeAll e (participants d))) \<le> max_participants d"
    by linarith
  with dist show ?thesis
    by (simp add: activity_inv_def pull_def distinct_removeAll)
qed

lemma signup_alone_failure:
  "fst (signup_for_activity id s n e) = Inl err \<Longrightarrow>
     snd (signup_for_activity id s n e) = s"
  by (auto simp: signup_cases split: option.splits if_splits)

lemma unregister_alone_failure:
  "fst (unregister_from_activity id s n e) = Inl err \<Longrightarrow>
     snd (unregister_from_activity id s n e) = s"
  by (auto simp: unregister_cases split: option.splits if_splits)

lemma execute_length: "s \<noteq> [] \<Longrightarrow> length (execute s r) = length s"
  by (cases r)
    (auto simp: signup_cases unregister_cases seed_data_def count_documents_def
      update_one_length split: option.splits)

lemma execute_nth:
  assumes "i < length s" and "activity_inv (s ! i)"
  shows "activity_inv (execute s r ! i) \<and> name (execute s r ! i) = name (s ! i) \<and>
         oid (execute s r ! i) = oid (s ! i)"
proof (cases r)
  case (Signup n e)
  show ?thesis
  proof (cases "fst (signup_for_activity id s n e)")
    case (Inl err)
    then have "execute s r = s"
      using Signup by (simp add: signup_alone_failure)
    with assms show ?thesis by simp
  next
    case (Inr m)
    then obtain a where a: "find_one s n = Some a" "e \<notin> set (participants a)"
      "int (length (participants a)) < max_participants a"
      and s': "execute s r = fst (update_one (push e) s n)"
      using Signup by (auto simp: signup_cases split: option.splits if_splits)
    from update_one_nth [OF assms(1), of "push e" n] a assms(2) show ?thesis
      by (auto simp: s' activity_inv_push) (simp_all add: push_def)
  qed
next
  case (Unregister n e)
  show ?thesis
  proof (cases "fst (unregister_from_activity id s n e)")
    case (Inl err)
    then have "execute s r = s"
      using Unregister by (simp add: unregister_alone_failure)
    with assms show ?thesis by simp
  next
    case (Inr m)
    then have s': "execute s r = fst (update_one (pull e) s n)"
      using Unregister by (auto simp: unregister_cases split: option.splits if_splits)
    from update_one_nth [OF assms(1), of "pull e" n] assms(2) show ?thesis
      by (auto simp: s' activity_inv_pull) (simp_all add: pull_def)
  qed
next
  case GetActivities
  with assms show ?thesis by simp
next
  case SeedData
  from assms(1) have "s \<noteq> []" by auto
  with SeedData assms show ?thesis by (simp add: seed_data_def count_documents_def)
qed

lemma seeded_inv: "list_all activity_inv (seed_data [])"
  by (simp add: seed_data_def count_documents_def initial_activities_def insert_one_def
        with_oid_def fresh_oid_def activity_inv_def)

text \<open>
  C1. Executing one operation alone (\<^verbatim>\<open>signup_for_activity\<close>,
  \<^verbatim>\<open>unregister_from_activity\<close>, \<^verbatim>\<open>get_activities\<close> or \<^verbatim>\<open>seed_data\<close>) preserves both
  invariants of every activity: a stored document whose participants are without duplicates
  and at most \<^verbatim>\<open>max_participants\<close> many is still stored afterwards, at the same place and
  under the same name and identifier, and still has both properties; and when all
  documents have them before, all documents have them afterwards, those that seeding
  inserts included.
\<close>

theorem invariants_preserved:
  "(\<forall>i < length s. activity_inv (s ! i) \<longrightarrow>
      i < length (execute s r) \<and> activity_inv (execute s r ! i) \<and>
      name (execute s r ! i) = name (s ! i) \<and> oid (execute s r ! i) = oid (s ! i)) \<and>
   (list_all activity_inv s \<longrightarrow> list_all activity_inv (execute s r))"
proof (intro conjI allI impI)
  fix i assume i: "i < length s" and inv: "activity_inv (s ! i)"
  from i have "s \<noteq> []" by auto
  with i show "i < length (execute s r)" by (simp add: execute_length)
  from execute_nth [OF i inv, of r]
  show "activity_inv (execute s r ! i)" "name (execute s r ! i) = name (s ! i)"
    "oid (execute s r ! i) = oid (s ! i)"
    by simp_all
next
  assume all: "list_all activity_inv s"
  show "list_all activity_inv (execute s r)"
  proof (cases "s = []")
    case True
    then show ?thesis
      by (cases r) (simp_all add: seeded_inv signup_for_activity_def unregister_from_activity_def)
  next
    case False
    then have len: "length (execute s r) = length s" by (rule execute_length)
    show ?thesis
      unfolding list_all_length
    proof (intro allI impI)
      fix i assume "i < length (execute s r)"
      with len have i: "i < length s" by simp
      with all have "activity_inv (s ! i)" by (simp add: list_all_length)
      with execute_nth [OF i, of r] show "activity_inv (execute s r ! i)" by simp
    qed
  qed
qed


theorem invariants_preserved_witness:
  "activity_inv ([doc 1 ''Chess Club'' 2 [''a@m.edu'']] ! 0) \<and>
   participants (execute [doc 1 ''Chess Club'' 2 [''a@m.edu'']]
                   (Signup ''Chess Club'' ''b@m.edu'') ! 0) = [''a@m.edu'', ''b@m.edu''] \<and>
   activity_inv (execute [doc 1 ''Chess Club'' 2 [''a@m.edu'']]
                   (Signup ''Chess Club'' ''b@m.edu'') ! 0) \<and>
   participants (execute [doc 1 ''Chess Club'' 2 [''a@m.edu'']]
                   (Unregister ''Chess Club'' ''a@m.edu'') ! 0) = [] \<and>
   activity_inv (execute [doc 1 ''Chess Club'' 2 [''a@m.edu'']]
                   (Unregister ''Chess Club'' ''a@m.edu'') ! 0) \<and>
   list_all activity_inv (execute [doc 1 ''Chess Club'' 2 [''a@m.edu'']] GetActivities) \<and>
   length (execute [] SeedData) = 9 \<and>
   list_all activity_inv (execute [] SeedData)"
proof -
  let ?s = "[doc 1 ''Chess Club'' 2 [''a@m.edu'']]"
  have i: "0 < length ?s" by simp
  have inv: "activity_inv (?s ! 0)" by (simp add: activity_inv_def doc_def)
  then have all: "list_all activity_inv ?s" by simp
  from i inv invariants_preserved [of ?s "Signup ''Chess Club'' ''b@m.edu''"]
  have 1: "activity_inv (execute ?s (Signup ''Chess Club'' ''b@m.edu'') ! 0)" by blast
  from i inv invariants_preserved [of ?s "Unregister ''Chess Club'' ''a@m.edu''"]
  have 2: "activity_inv (execute ?s (Unregister ''Chess Club'' ''a@m.edu'') ! 0)" by blast
  from all invariants_preserved [of ?s GetActivities]
  have 3: "list_all activity_inv (execute ?s GetActivities)" by blast
  have "list_all activity_inv []" by simp
  with invariants_preserved [of "[]" SeedData]
  have 4: "list_all activity_inv (execute [] SeedData)" by blast
  have 5: "participants (execute ?s (Signup ''Chess Club'' ''b@m.edu'') ! 0) =
             [''a@m.edu'', ''b@m.edu'']"
    by (simp add: signup_for_activity_def doc_def push_def)
  have 6: "participants (execute ?s (Unregister ''Chess Club'' ''a@m.edu'') ! 0) = []"
    by (simp add: unregister_from_activity_def doc_def pull_def)
  have 7: "length (execute [] SeedData) = 9"
    by (simp add: seed_data_def count_documents_def initial_activities_def insert_one_def)
  from inv 1 2 3 4 5 6 7 show ?thesis by blast
qed

section \<open>Listing the activities\<close>

lemma get_activities_Nil: "get_activities [] = []"
  by (simp add: get_activities_def)

lemma get_activities_snoc:
  "get_activities (s @ [d]) = AList.update (name d) (pop_oid d) (get_activities s)"
  by (simp add: get_activities_def)

lemma get_activities_keys: "fst ` set (get_activities s) = name ` set s"
  by (induction s rule: rev_induct) (auto simp: get_activities_Nil get_activities_snoc dom_update)

lemma get_activities_distinct: "distinct (map fst (get_activities s))"
  by (induction s rule: rev_induct)
    (simp_all add: get_activities_Nil get_activities_snoc distinct_update)

lemma get_activities_lookup:
  "map_of (get_activities s) n = map_option pop_oid (find_one (rev s) n)"
  by (induction s rule: rev_induct)
    (simp_all add: get_activities_Nil get_activities_snoc update_conv')

lemma update_fresh: "k \<notin> fst ` set al \<Longrightarrow> AList.update k v al = al @ [(k, v)]"
  by (induction al) auto

lemma get_activities_unique_names:
  "distinct (map name s) \<Longrightarrow> get_activities s = map (\<lambda>d. (name d, pop_oid d)) s"
proof (induction s rule: rev_induct)
  case Nil
  show ?case by (simp add: get_activities_Nil)
next
  case (snoc d s)
  from snoc.prems have "name d \<notin> fst ` set (get_activities s)"
    by (simp add: get_activities_keys)
  then have "get_activities (s @ [d]) = get_activities s @ [(name d, pop_oid d)]"
    by (simp add: get_activities_snoc update_fresh)
  moreover from snoc have "get_activities s = map (\<lambda>d. (name d, pop_oid d)) s"
    by simp
  ultimately show ?case by simp
qed

text \<open>
  C8. \<^verbatim>\<open>get_activities\<close> has no error branch and leaves the collection as it is. It
  returns a mapping whose keys are exactly the names of the stored activities, and the
  empty mapping for the empty collection. Each value is a stored document of that name
  with \<^verbatim>\<open>_id\<close> removed and every other field unchanged (the last such document, since a
  later assignment to a key replaces the earlier one). When the names are unique, as the
  data model has them, every stored activity is listed under its name, in the order of
  the collection.
\<close>

theorem get_activities_mapping:
  "execute s GetActivities = s \<and>
   get_activities [] = [] \<and>
   fst ` set (get_activities s) = name ` set s \<and>
   distinct (map fst (get_activities s)) \<and>
   map_of (get_activities s) n = map_option pop_oid (find_one (rev s) n) \<and>
   (distinct (map name s) \<longrightarrow>
      get_activities s = map (\<lambda>d. (name d, pop_oid d)) s \<and>
      (\<forall>d \<in> set s. map_of (get_activities s) (name d) = Some (pop_oid d))) \<and>
   (\<forall>d. name (pop_oid d) = name d \<and> description (pop_oid d) = description d \<and>
        schedule (pop_oid d) = schedule d \<and>
        max_participants (pop_oid d) = max_participants d \<and>
        participants (pop_oid d) = participants d)"
proof (intro conjI impI ballI allI)
  assume dist: "distinct (map name s)"
  then show eq: "get_activities s = map (\<lambda>d. (name d, pop_oid d)) s"
    by (rule get_activities_unique_names)
  fix d assume "d \<in> set s"
  then have "(name d, pop_oid d) \<in> set (get_activities s)" by (auto simp: eq)
  with get_activities_distinct [of s]
  show "map_of (get_activities s) (name d) = Some (pop_oid d)" by simp
qed (simp_all add: get_activities_Nil get_activities_keys get_activities_distinct
      get_activities_lookup pop_oid_def)

theorem get_activities_mapping_witness:
  "distinct (map name [doc 1 ''Chess Club'' 12 [''a@m.edu''], doc 2 ''Art Club'' 16 []]) \<and>
   get_activities [doc 1 ''Chess Club'' 12 [''a@m.edu''], doc 2 ''Art Club'' 16 []] =
     [(''Chess Club'', pop_oid (doc 1 ''Chess Club'' 12 [''a@m.edu''])),
      (''Art Club'', pop_oid (doc 2 ''Art Club'' 16 []))] \<and>
   map_of (get_activities [doc 1 ''Chess Club'' 12 [''a@m.edu''], doc 2 ''Art Club'' 16 []])
     ''Art Club'' =
     Some \<lparr>name = ''Art Club'', description = [], schedule = [], max_participants = 16,
           participants = []\<rparr>"
proof -
  let ?s = "[doc 1 ''Chess Club'' 12 [''a@m.edu''], doc 2 ''Art Club'' 16 []]"
  have dist: "distinct (map name ?s)" by (simp add: doc_def)
  with get_activities_mapping [of ?s]
  have eq: "get_activities ?s = map (\<lambda>d. (name d, pop_oid d)) ?s"
    and each: "\<forall>d \<in> set ?s. map_of (get_activities ?s) (name d) = Some (pop_oid d)"
    by blast+
  from each have "map_of (get_activities ?s) (name (doc 2 ''Art Club'' 16 [])) =
      Some (pop_oid (doc 2 ''Art Club'' 16 []))"
    by simp
  then have "map_of (get_activities ?s) ''Art Club'' =
      Some \<lparr>name = ''Art Club'', description = [], schedule = [], max_participants = 16,
            participants = []\<rparr>"
    by (simp add: doc_def pop_oid_def)
  moreover from eq have "get_activities ?s =
     [(''Chess Club'', pop_oid (doc 1 ''Chess Club'' 12 [''a@m.edu''])),
      (''Art Club'', pop_oid (doc 2 ''Art Club'' 16 []))]"
    by (simp add: doc_def)
  ultimately show ?thesis using dist by blast
qed

section \<open>Seeding\<close>

lemma seeded_get_activities: "get_activities (seed_data []) = initial_activities"
  by (simp add: get_activities_def seed_data_def count_documents_def initial_activities_def
        insert_one_def with_oid_def fresh_oid_def pop_oid_def)


lemma seeded_documents: "map pop_oid (seed_data []) = map snd initial_activities"
  by (simp add: seed_data_def count_documents_def initial_activities_def
        insert_one_def with_oid_def fresh_oid_def pop_oid_def)

lemma seeded_oids: "map oid (seed_data []) = [1, 2, 3, 4, 5, 6, 7, 8, 9]"
  by (simp add: seed_data_def count_documents_def initial_activities_def
        insert_one_def with_oid_def fresh_oid_def)

lemma initial_names:
  "map fst initial_activities =
     [''Chess Club'', ''Programming Class'', ''Gym Class'', ''Soccer Team'',
      ''Basketball Club'', ''Art Club'', ''Drama Society'', ''Math Olympiad'',
      ''Debate Club'']"
  by (simp add: initial_activities_def)

lemma initial_chess_club:
  "map_of initial_activities ''Chess Club'' =
     Some \<lparr>name = ''Chess Club'',
           description = ''Learn strategies and compete in chess tournaments'',
           schedule = ''Fridays, 3:30 PM - 5:00 PM'',
           max_participants = 12,
           participants = [''michael@mergington.edu'', ''daniel@mergington.edu'']\<rparr>"
  by (simp add: initial_activities_def)

text \<open>
  C6. From the empty collection, \<^verbatim>\<open>seed_data\<close> inserts the activities of
  \<^verbatim>\<open>initial_activities\<close>, each under its own identifier, and \<^verbatim>\<open>get_activities\<close> then
  returns exactly \<^verbatim>\<open>initial_activities\<close>: nine named activities, among them "Chess Club"
  with 2 participants and \<^verbatim>\<open>max_participants\<close> 12. On a collection that holds a document,
  \<^verbatim>\<open>seed_data\<close> inserts nothing.
\<close>

theorem seed_data_then_get_activities:
  "map pop_oid (seed_data []) = map snd initial_activities \<and>
   distinct (map oid (seed_data [])) \<and>
   get_activities (seed_data []) = initial_activities \<and>
   length (get_activities (seed_data [])) = 9 \<and>
   map fst (get_activities (seed_data [])) =
     [''Chess Club'', ''Programming Class'', ''Gym Class'', ''Soccer Team'',
      ''Basketball Club'', ''Art Club'', ''Drama Society'', ''Math Olympiad'',
      ''Debate Club''] \<and>
   map_option (\<lambda>a. (length (participants a), max_participants a))
     (map_of (get_activities (seed_data [])) ''Chess Club'') = Some (2, 12) \<and>
   (s \<noteq> [] \<longrightarrow> seed_data s = s)"
proof (intro conjI impI)
  show "distinct (map oid (seed_data []))" by (simp add: seeded_oids)
  show "length (get_activities (seed_data [])) = 9"
    using arg_cong [OF initial_names, of length] by (simp add: seeded_get_activities)
  show "map_option (\<lambda>a. (length (participants a), max_participants a))
     (map_of (get_activities (seed_data [])) ''Chess Club'') = Some (2, 12)"
    by (simp add: seeded_get_activities initial_chess_club)
  assume "s \<noteq> []"
  then show "seed_data s = s" by (simp add: seed_data_def count_documents_def)
qed (simp_all add: seeded_documents seeded_get_activities initial_names)

theorem seed_data_then_get_activities_witness:
  "[doc 7 ''Chess Club'' 12 []] \<noteq> [] \<and>
   seed_data [doc 7 ''Chess Club'' 12 []] = [doc 7 ''Chess Club'' 12 []] \<and>
   get_activities (seed_data []) = initial_activities"
  using seed_data_then_get_activities [of "[doc 7 ''Chess Club'' 12 []]"] by simp

end
